theory Spec2Isabelle
  imports Main "HOL-Library.AList" "HOL-Library.Sublist"
begin

section \<open>The seating chart of make-site.py\<close>

text \<open>
  The theory embeds \<^verbatim>\<open>draw_svg\<close> (lines 50 to 139 of make-site.py) and the loop of
  \<^verbatim>\<open>build_site\<close> that handles one event record (lines 205 to 223).

  A Python \<^verbatim>\<open>str\<close> is modelled by its UTF-8 encoding, a list of bytes: the encoding is
  injective and commutes with concatenation, so equality, membership in a list of
  strings, concatenation and \<^verbatim>\<open>join\<close> are the operations of \<open>char list\<close>. The two
  accented letters of the labels are therefore two bytes each.
\<close>

subsection \<open>Values and how Python prints them\<close>

datatype error = AssertionError | ValueError

definition digit_char :: "nat \<Rightarrow> char" where
  "digit_char d = ''0123456789'' ! d"

fun str_nat :: "nat \<Rightarrow> string" where
  "str_nat n = (if n < 10 then [digit_char n] else str_nat (n div 10) @ [digit_char (n mod 10)])"

declare str_nat.simps [simp del]

text \<open>\<^verbatim>\<open>str(k)\<close> of an integer: decimal digits, a minus sign before a negative number.\<close>

definition str_int :: "int \<Rightarrow> string" where
  "str_int k = (if k < 0 then CHR ''-'' # str_nat (nat (- k)) else str_nat (nat k))"

text \<open>
  The values that reach an f-string. Every float of \<^verbatim>\<open>draw_svg\<close> is a whole number
  (a half-integer times the even cell size, or half an even width) far below \<open>10^16\<close>;
  \<open>PFloat n\<close> is the float whose value is the integer \<open>n\<close>, and Python prints it
  as the digits of \<open>n\<close> followed by \<^verbatim>\<open>.0\<close>.
\<close>

datatype pyval = PInt int | PFloat int | PStr string

fun py_format :: "pyval \<Rightarrow> string" where
  "py_format (PInt n) = str_int n"
| "py_format (PFloat n) = str_int n @ ''.0''"
| "py_format (PStr s) = s"

text \<open>\<^verbatim>\<open>sep.join(xs)\<close>.\<close>

fun join :: "string \<Rightarrow> string list \<Rightarrow> string" where
  "join sep [] = []"
| "join sep [x] = x"
| "join sep (x # y # ys) = x @ sep @ join sep (y # ys)"

text \<open>
  \<^verbatim>\<open>xs[a:b]\<close> with step 1: a missing bound is \<open>None\<close>, a negative bound counts from
  the end, and both are clamped to the list.
\<close>

definition slice_bound :: "int \<Rightarrow> int \<Rightarrow> int" where
  "slice_bound n i = (if i < 0 then max 0 (i + n) else min i n)"

definition py_slice :: "'a list \<Rightarrow> int option \<Rightarrow> int option \<Rightarrow> 'a list" where
  "py_slice xs a b =
     (let n = int (length xs);
          lo = (case a of None \<Rightarrow> 0 | Some i \<Rightarrow> slice_bound n i);
          hi = (case b of None \<Rightarrow> n | Some i \<Rightarrow> slice_bound n i)
      in take (nat (hi - lo)) (drop (nat lo) xs))"

text \<open>
  A \<^verbatim>\<open>dict\<close> keeps insertion order, so it is an association list; \<^verbatim>\<open>d | kwargs\<close>
  overwrites the value of a key that \<open>d\<close> has, in place, and appends a new key.
\<close>

definition dict_or :: "(string \<times> pyval) list \<Rightarrow> (string \<times> pyval) list \<Rightarrow> (string \<times> pyval) list" where
  "dict_or d kwargs = fold (\<lambda>(k, v). AList.update k v) kwargs d"

subsection \<open>The drawing helpers (lines 53 to 92)\<close>

definition make_args :: "(string \<times> pyval) list \<Rightarrow> string" where
  \<open>make_args args = join '' '' (map (\<lambda>(k, v). k @ ''="'' @ py_format v @ ''"'') args)\<close>

definition draw_text :: "pyval \<Rightarrow> pyval \<Rightarrow> pyval \<Rightarrow> string \<Rightarrow> string \<Rightarrow> (string \<times> pyval) list \<Rightarrow> string" where
  \<open>draw_text x y sz text fill kwargs =
     (let args = make_args (dict_or
            [(''x'', x),
             (''y'', y),
             (''dominant-baseline'', PStr ''middle''),
             (''text-anchor'', PStr ''middle''),
             (''font-family'', PStr ''sans-serif''),
             (''font-size'', sz),
             (''fill'', PStr fill)]
            kwargs)
      in ''<text '' @ args @ ''>'' @ text @ ''</text>'')\<close>

definition draw_rect :: "pyval \<Rightarrow> pyval \<Rightarrow> pyval \<Rightarrow> pyval \<Rightarrow> string \<Rightarrow> string \<Rightarrow> string" where
  \<open>draw_rect x y w h stroke fill =
     (let args = make_args
            [(''x'', x),
             (''y'', y),
             (''width'', w),
             (''height'', h),
             (''stroke'', PStr stroke),
             (''fill'', PStr fill)]
      in ''<rect '' @ args @ '' />'')\<close>

definition draw_seat :: "pyval \<Rightarrow> pyval \<Rightarrow> int \<Rightarrow> string \<Rightarrow> string" where
  \<open>draw_seat x y k color =
     join [CHR 0x0A]
       [''<g transform="translate('' @ py_format x @ '','' @ py_format y @ '') scale(1.6)">'',
        ''  '' @ draw_rect (PInt (- 10)) (PInt (- 10)) (PInt 20) (PInt 20) ''black'' color,
        ''  '' @ draw_text (PInt 0) (PInt 0) (PInt 9) (str_int k) ''black'' [(''dy'', PStr ''.1em'')],
        ''</g>'']\<close>

subsection \<open>The grid of seats (lines 94 to 106)\<close>

definition size_px :: int where
  "size_px = 40"

definition ls :: "int list" where
  "ls = map (\<lambda>i. int i * 2 + 1) (rev [0..<12])"

definition rs :: "int list" where
  "rs = map (\<lambda>i. int i * 2 + 2) [0..<12]"

definition cols :: "int list" where
  "cols = py_slice ls None (Some 6) @ [0, - 1, 0] @ py_slice ls (Some 6) None
        @ py_slice rs None (Some 6) @ [0, - 1, 0] @ py_slice rs (Some 6) None"

definition rows :: string where
  "rows = ''ABCDEFGHJKLMNOPQ''"

definition seats :: "int list list" where
  "seats =
     replicate 2 (py_slice cols None None)
     @ replicate 8 (replicate 2 0 @ py_slice cols (Some 2) (Some (- 2)) @ replicate 2 0)
     @ [replicate 2 0 @ py_slice cols (Some 2) (Some (- 4)) @ replicate 4 0]
     @ replicate 4 (replicate 6 0 @ py_slice cols (Some 6) (Some (- 6)) @ replicate 6 0)
     @ [replicate 6 0 @ py_slice cols (Some 6) (Some 13) @ replicate 4 0
          @ py_slice cols (Some (- 13)) (Some (- 6)) @ replicate 6 0]"

subsection \<open>Rendering (lines 108 to 139)\<close>

definition canvas_w :: int where
  "canvas_w = size_px * int (length cols) + 2 * size_px"

definition canvas_h :: int where
  "canvas_h = size_px * int (length rows) + 6 * size_px"

definition stage :: int where
  "stage = size_px * 2"

text \<open>
  The five items the list \<^verbatim>\<open>svg\<close> starts with. \<^verbatim>\<open>w / 2\<close> and \<^verbatim>\<open>stage / 2\<close> are
  floats; both numbers are even, so the quotients are whole.
\<close>

definition svg_head :: "string list" where
  \<open>svg_head =
     [''<svg xmlns="http://www.w3.org/2000/svg" width="'' @ str_int canvas_w
        @ ''" height="'' @ str_int canvas_h @ ''">'',
      draw_rect (PInt 0) (PInt 0) (PInt canvas_w) (PInt stage) ''none'' ''#8bc34a'',
      draw_text (PFloat (canvas_w div 2)) (PFloat (stage div 2 + 5)) (PInt 24)
        (''Sc'' @ [CHR 0xC3, CHR 0xA8] @ ''ne'') ''white'' [],
      draw_rect (PInt 0) (PInt (canvas_h - stage)) (PInt canvas_w) (PInt stage) ''none'' ''#8bc34a'',
      draw_text (PFloat (canvas_w div 2)) (PFloat (canvas_h - stage div 2 + 5)) (PInt 24)
        (''R'' @ [CHR 0xC3, CHR 0xA9] @ ''gie'') ''white'' []]\<close>

text \<open>The identifier \<^verbatim>\<open>f"{rows[j]}{k}"\<close> of the seat \<open>k\<close> of row \<open>j\<close>.\<close>

definition seat_id :: "nat \<Rightarrow> int \<Rightarrow> string" where
  "seat_id j k = rows ! j # str_int k"

text \<open>Lines 130 to 135: the colour of a seat, each assignment overriding the one before.\<close>

definition seat_color :: "string list \<Rightarrow> nat \<Rightarrow> int \<Rightarrow> string" where
  "seat_color reserved j k =
     (let color = ''none'';
          color = (if k > 20 then ''yellow'' else color);
          seat = seat_id j k;
          color = (if seat \<in> set reserved then ''#ffcccb'' else color)
      in color)"

text \<open>
  The body of the inner loop, as the list of items it appends to \<^verbatim>\<open>svg\<close> for the cell
  \<open>k\<close> at column \<open>i\<close> of row \<open>j\<close>. \<^verbatim>\<open>size * (i + 1.5)\<close> is the whole number
  \<open>size * (2 i + 3) / 2\<close>, a float.
\<close>

definition cell_items :: "string list \<Rightarrow> nat \<Rightarrow> nat \<Rightarrow> int \<Rightarrow> string list" where
  "cell_items reserved j i k =
     (if k = 0 then []
      else
        let x = PFloat (size_px * (2 * int i + 3) div 2);
            y = PFloat (size_px * (2 * int j + 7) div 2)
        in if k < 0 then [draw_text x y (PInt 20) [rows ! j] ''black'' []]
           else [draw_seat x y k (seat_color reserved j k)])"

definition row_items :: "string list \<Rightarrow> nat \<Rightarrow> int list \<Rightarrow> string list" where
  "row_items reserved j row = concat (map (\<lambda>(i, k). cell_items reserved j i k) (enumerate 0 row))"

definition grid_items :: "string list \<Rightarrow> int list list \<Rightarrow> string list" where
  "grid_items reserved grid = concat (map (\<lambda>(j, row). row_items reserved j row) (enumerate 0 grid))"

definition svg_items :: "string list \<Rightarrow> string list" where
  "svg_items reserved = svg_head @ grid_items reserved seats @ [''</svg>'']"

text \<open>
  \<^verbatim>\<open>draw_svg(reserved)\<close>: the two assertions of lines 105 and 106 come before anything
  is drawn; the result is the document, or the assertion that failed. The first
  assertion is what keeps \<^verbatim>\<open>rows[j]\<close> in range.
\<close>

definition draw_svg :: "string list \<Rightarrow> error + string" where
  "draw_svg reserved =
     (if length seats \<noteq> length rows then Inl AssertionError
      else if \<not> list_all (\<lambda>row. length cols = length row) seats then Inl AssertionError
      else Inr (join [CHR 0x0A] (svg_items reserved)))"

subsection \<open>Reading the output back\<close>

text \<open>
  The value of the first \<^verbatim>\<open>fill\<close> attribute of a piece of markup. In a seat glyph that is
  the fill of its square, which comes before the label; in a row label and in a band it is
  the only one.
\<close>

fun fill_of :: "string \<Rightarrow> string option" where
  "fill_of [] = None"
| \<open>fill_of (c # cs) =
     (if prefix ''fill="'' (c # cs) then Some (takeWhile (\<lambda>d. d \<noteq> CHR 0x22) (drop 6 (c # cs)))
      else fill_of cs)\<close>

text \<open>
  The number of places of a string at which a pattern starts; with the pattern
  \<^verbatim>\<open>fill="yellow"\<close> it counts, in the bytes of a document, the shapes filled with the
  premium colour.
\<close>

fun occurrences :: "string \<Rightarrow> string \<Rightarrow> nat" where
  "occurrences pat [] = 0"
| "occurrences pat (c # cs) = (if prefix pat (c # cs) then 1 else 0) + occurrences pat cs"

abbreviation yellow_fill :: string where
  \<open>yellow_fill \<equiv> ''fill="yellow"''\<close>

text \<open>
  The identifiers of the seats of the layout: the loop of lines 121 to 136 compares
  \<^verbatim>\<open>reserved\<close> with exactly these strings.
\<close>

definition seat_ids :: "string list" where
  "seat_ids = concat (map (\<lambda>(j, row). map (seat_id j) (filter (\<lambda>k. 0 < k) row)) (enumerate 0 seats))"

subsection \<open>One event record (lines 205 to 223)\<close>







subsection \<open>The grid, computed\<close>

lemma ls_eq: "ls = [23, 21, 19, 17, 15, 13, 11, 9, 7, 5, 3, 1]"
  by code_simp

lemma rs_eq: "rs = [2, 4, 6, 8, 10, 12, 14, 16, 18, 20, 22, 24]"
  by code_simp

lemma cols_eq:
  "cols = [23, 21, 19, 17, 15, 13, 0, - 1, 0, 11, 9, 7, 5, 3, 1,
           2, 4, 6, 8, 10, 12, 0, - 1, 0, 14, 16, 18, 20, 22, 24]"
  by (simp add: cols_def ls_eq rs_eq py_slice_def slice_bound_def)

lemma length_cols: "length cols = 30"
  by (simp add: cols_eq)

lemma length_rows: "length rows = 16"
  by (simp add: rows_def)

lemma seats_eq:
  "seats =
    [[23, 21, 19, 17, 15, 13, 0, - 1, 0, 11, 9, 7, 5, 3, 1, 2, 4, 6, 8, 10, 12, 0, - 1, 0, 14, 16, 18, 20, 22, 24],
     [23, 21, 19, 17, 15, 13, 0, - 1, 0, 11, 9, 7, 5, 3, 1, 2, 4, 6, 8, 10, 12, 0, - 1, 0, 14, 16, 18, 20, 22, 24],
     [0, 0, 19, 17, 15, 13, 0, - 1, 0, 11, 9, 7, 5, 3, 1, 2, 4, 6, 8, 10, 12, 0, - 1, 0, 14, 16, 18, 20, 0, 0],
     [0, 0, 19, 17, 15, 13, 0, - 1, 0, 11, 9, 7, 5, 3, 1, 2, 4, 6, 8, 10, 12, 0, - 1, 0, 14, 16, 18, 20, 0, 0],
     [0, 0, 19, 17, 15, 13, 0, - 1, 0, 11, 9, 7, 5, 3, 1, 2, 4, 6, 8, 10, 12, 0, - 1, 0, 14, 16, 18, 20, 0, 0],
     [0, 0, 19, 17, 15, 13, 0, - 1, 0, 11, 9, 7, 5, 3, 1, 2, 4, 6, 8, 10, 12, 0, - 1, 0, 14, 16, 18, 20, 0, 0],
     [0, 0, 19, 17, 15, 13, 0, - 1, 0, 11, 9, 7, 5, 3, 1, 2, 4, 6, 8, 10, 12, 0, - 1, 0, 14, 16, 18, 20, 0, 0],
     [0, 0, 19, 17, 15, 13, 0, - 1, 0, 11, 9, 7, 5, 3, 1, 2, 4, 6, 8, 10, 12, 0, - 1, 0, 14, 16, 18, 20, 0, 0],
     [0, 0, 19, 17, 15, 13, 0, - 1, 0, 11, 9, 7, 5, 3, 1, 2, 4, 6, 8, 10, 12, 0, - 1, 0, 14, 16, 18, 20, 0, 0],
     [0, 0, 19, 17, 15, 13, 0, - 1, 0, 11, 9, 7, 5, 3, 1, 2, 4, 6, 8, 10, 12, 0, - 1, 0, 14, 16, 18, 20, 0, 0],
     [0, 0, 19, 17, 15, 13, 0, - 1, 0, 11, 9, 7, 5, 3, 1, 2, 4, 6, 8, 10, 12, 0, - 1, 0, 14, 16, 0, 0, 0, 0],
     [0, 0, 0, 0, 0, 0, 0, - 1, 0, 11, 9, 7, 5, 3, 1, 2, 4, 6, 8, 10, 12, 0, - 1, 0, 0, 0, 0, 0, 0, 0],
     [0, 0, 0, 0, 0, 0, 0, - 1, 0, 11, 9, 7, 5, 3, 1, 2, 4, 6, 8, 10, 12, 0, - 1, 0, 0, 0, 0, 0, 0, 0],
     [0, 0, 0, 0, 0, 0, 0, - 1, 0, 11, 9, 7, 5, 3, 1, 2, 4, 6, 8, 10, 12, 0, - 1, 0, 0, 0, 0, 0, 0, 0],
     [0, 0, 0, 0, 0, 0, 0, - 1, 0, 11, 9, 7, 5, 3, 1, 2, 4, 6, 8, 10, 12, 0, - 1, 0, 0, 0, 0, 0, 0, 0],
     [0, 0, 0, 0, 0, 0, 0, - 1, 0, 11, 9, 7, 5, 0, 0, 0, 0, 6, 8, 10, 12, 0, - 1, 0, 0, 0, 0, 0, 0, 0]]"
  by (simp add: seats_def cols_eq py_slice_def slice_bound_def numeral_eq_Suc)

lemma map_length_seats: "map length seats = replicate 16 30"
  by (simp add: seats_eq numeral_eq_Suc)

lemma asserts_hold:
  "length seats = length rows" "list_all (\<lambda>row. length cols = length row) seats"
  by (simp_all add: seats_eq length_cols length_rows)

lemma draw_svg_Inr: "draw_svg reserved = Inr (join [CHR 0x0A] (svg_items reserved))"
  by (simp add: draw_svg_def asserts_hold)

text \<open>
  C4. The layout generator always succeeds: the grid has 16 rows, one for each of the
  labels A to Q without I, every row is as wide as the canonical pattern of 30 cells, and
  so neither of the two assertions fails: \<open>draw_svg\<close> returns a document for
  every reservation list.
\<close>

theorem layout_generator_succeeds:
  "length seats = 16 \<and> length rows = 16 \<and> rows = ''ABCDEFGHJKLMNOPQ''
   \<and> length cols = 30 \<and> map length seats = replicate 16 (length cols)
   \<and> length seats = length rows
   \<and> list_all (\<lambda>row. length cols = length row) seats
   \<and> draw_svg reserved \<noteq> Inl AssertionError
   \<and> (\<exists>doc. draw_svg reserved = Inr doc)"
  by (simp add: asserts_hold draw_svg_Inr length_cols length_rows map_length_seats)
    (simp add: seats_eq rows_def)

text \<open>
  C5. The left sequence is the odd numbers 23 down to 1, the right sequence the even
  numbers 2 up to 24, and the canonical pattern is the first 6 of the left sequence, the
  gap (empty, row label marker, empty), the last 6 of the left sequence, the first 6 of
  the right sequence, the gap again, and the last 6 of the right sequence. An empty cell
  is 0 and the marker is -1.
\<close>

theorem canonical_row_pattern:
  "ls = [23, 21, 19, 17, 15, 13, 11, 9, 7, 5, 3, 1]
   \<and> rs = [2, 4, 6, 8, 10, 12, 14, 16, 18, 20, 22, 24]
   \<and> cols = take 6 ls @ [0, - 1, 0] @ drop 6 ls @ take 6 rs @ [0, - 1, 0] @ drop 6 rs
   \<and> cols = [23, 21, 19, 17, 15, 13] @ [0, - 1, 0] @ [11, 9, 7, 5, 3, 1]
            @ [2, 4, 6, 8, 10, 12] @ [0, - 1, 0] @ [14, 16, 18, 20, 22, 24]"
  by (simp add: cols_eq) (simp add: ls_eq rs_eq)

text \<open>
  C6. Rows 3 to 10, the 8 rows after the first two, are all the same row: 2 empty cells,
  the interior of the canonical pattern (the pattern without its 2 outermost cells at
  each end, which are the seats 23, 21 and 22, 24), and 2 empty cells.
\<close>

theorem rows_3_to_10:
  "take 8 (drop 2 seats)
     = replicate 8 (replicate 2 0 @ take (length cols - 4) (drop 2 cols) @ replicate 2 0)
   \<and> take (length cols - 4) (drop 2 cols)
     = [19, 17, 15, 13, 0, - 1, 0, 11, 9, 7, 5, 3, 1, 2, 4, 6, 8, 10, 12, 0, - 1, 0, 14, 16, 18, 20]
   \<and> cols = [23, 21] @ take (length cols - 4) (drop 2 cols) @ [22, 24]"
  by (simp add: seats_eq cols_eq numeral_eq_Suc)

text \<open>
  C7. Row 16, the last one, is 6 empty cells, the cells [6:13] of the canonical pattern,
  4 empty cells, the cells [-13:-6] of the pattern and 6 empty cells; it is as wide as the
  pattern and as every other row.
\<close>

theorem row_16:
  "seats ! 15 = replicate 6 0 @ take 7 (drop 6 cols) @ replicate 4 0
                @ take 7 (drop (length cols - 13) cols) @ replicate 6 0
   \<and> seats ! 15 = last seats
   \<and> take 7 (drop 6 cols) = [0, - 1, 0, 11, 9, 7, 5]
   \<and> take 7 (drop (length cols - 13) cols) = [6, 8, 10, 12, 0, - 1, 0]
   \<and> length (seats ! 15) = length cols
   \<and> map length seats = replicate 16 (length (seats ! 15))"
  by (simp add: seats_eq cols_eq numeral_eq_Suc)

subsection \<open>The fill of a glyph\<close>

lemma digit_char_in: "d < 10 \<Longrightarrow> digit_char d \<in> set ''0123456789''"
  unfolding digit_char_def by (rule nth_mem) simp

lemma str_nat_digits: "set (str_nat n) \<subseteq> set ''0123456789''"
proof (induction n rule: str_nat.induct)
  case (1 n)
  show ?case
  proof (cases "n < 10")
    case True
    then show ?thesis using digit_char_in [of n] by (subst str_nat.simps) simp
  next
    case False
    have "n mod 10 < 10" by simp
    then have "digit_char (n mod 10) \<in> set ''0123456789''" by (rule digit_char_in)
    with False 1 show ?thesis by (subst str_nat.simps) simp
  qed
qed

lemma str_nat_no_f: "CHR ''f'' \<notin> set (str_nat n)"
proof
  assume "CHR ''f'' \<in> set (str_nat n)"
  then have "CHR ''f'' \<in> set ''0123456789''" using str_nat_digits by (rule subsetD [rotated])
  then show False by simp
qed

lemma str_int_no_f [simp]: "CHR ''f'' \<notin> set (str_int k)"
  by (simp add: str_int_def str_nat_no_f)

lemma fill_of_skip: "CHR ''f'' \<notin> set p \<Longrightarrow> fill_of (p @ s) = fill_of s"
  by (induction p) auto

lemma fill_of_skip_int [simp]: "fill_of (str_int k @ s) = fill_of s"
  by (simp add: fill_of_skip)

lemma str_int_small [simp]:
  "str_int (- 10) = ''-10''" "str_int 20 = ''20''" "str_int 0 = ''0''" "str_int 9 = ''9''"
  by code_simp+

lemma takeWhile_quote:
  "CHR 0x22 \<notin> set c \<Longrightarrow> takeWhile (\<lambda>d. d \<noteq> CHR 0x22) (c @ CHR 0x22 # s) = c"
  by (induction c) auto

lemma fill_of_draw_seat:
  "CHR 0x22 \<notin> set c \<Longrightarrow> fill_of (draw_seat (PFloat a) (PFloat b) k c) = Some c"
  by (simp add: draw_seat_def draw_rect_def make_args_def takeWhile_quote)

lemma fill_of_label:
  "fill_of (draw_text (PFloat a) (PFloat b) (PInt 20) t ''black'' []) = Some ''black''"
  by (simp add: draw_text_def make_args_def dict_or_def)

lemma cell_xy:
  "size_px * (2 * int i + 3) div 2 = 40 * int i + 60"
  "size_px * (2 * int j + 7) div 2 = 40 * int j + 140"
proof -
  have "size_px * (2 * int i + 3) = 2 * (40 * int i + 60)" by (simp add: size_px_def)
  then show "size_px * (2 * int i + 3) div 2 = 40 * int i + 60" by simp
  have "size_px * (2 * int j + 7) = 2 * (40 * int j + 140)" by (simp add: size_px_def)
  then show "size_px * (2 * int j + 7) div 2 = 40 * int j + 140" by simp
qed

lemma cell_items_seat:
  "0 < k \<Longrightarrow> cell_items reserved j i k
     = [draw_seat (PFloat (40 * int i + 60)) (PFloat (40 * int j + 140)) k (seat_color reserved j k)]"
  by (simp add: cell_items_def cell_xy)

lemma seat_color_cases:
  "seat_color reserved j k
     = (if seat_id j k \<in> set reserved then ''#ffcccb'' else if 20 < k then ''yellow'' else ''none'')"
  by (simp add: seat_color_def)

lemma seat_color_no_quote: "CHR 0x22 \<notin> set (seat_color reserved j k)"
  by (simp add: seat_color_cases)

lemma cell_in_row:
  assumes "i < length row"
  shows "set (cell_items reserved j i (row ! i)) \<subseteq> set (row_items reserved j row)"
proof -
  have "(i, row ! i) \<in> set (enumerate 0 row)"
    using assms by (simp add: in_set_enumerate_eq)
  then show ?thesis by (force simp: row_items_def)
qed

lemma row_in_grid:
  assumes "j < length grid"
  shows "set (row_items reserved j (grid ! j)) \<subseteq> set (grid_items reserved grid)"
proof -
  have "(j, grid ! j) \<in> set (enumerate 0 grid)"
    using assms by (simp add: in_set_enumerate_eq)
  then show ?thesis by (force simp: grid_items_def)
qed

lemma cell_in_svg:
  assumes "j < length seats" and "i < length (seats ! j)"
  shows "set (cell_items reserved j i (seats ! j ! i)) \<subseteq> set (svg_items reserved)"
  using cell_in_row [OF assms(2), of reserved j] row_in_grid [OF assms(1), of reserved]
  by (auto simp: svg_items_def)

lemma join_contains:
  "x \<in> set xs \<Longrightarrow> \<exists>pre post. join sep xs = pre @ x @ post"
proof (induction sep xs rule: join.induct)
  case (1 sep)
  then show ?case by simp
next
  case (2 sep y)
  then have "join sep [y] = [] @ x @ []" by simp
  then show ?case by blast
next
  case (3 sep y z zs)
  show ?case
  proof (cases "x = y")
    case True
    then have "join sep (y # z # zs) = [] @ x @ (sep @ join sep (z # zs))" by simp
    then show ?thesis by blast
  next
    case False
    with 3 obtain pre post where "join sep (z # zs) = pre @ x @ post" by auto
    then have "join sep (y # z # zs) = (y @ sep @ pre) @ x @ post" by simp
    then show ?thesis by blast
  qed
qed

text \<open>
  C1. For every seat cell of the layout, the cell \<open>k > 0\<close> at column \<open>i\<close> of
  row \<open>j\<close> of \<open>seats\<close>, the loop appends one glyph, that glyph is an item of the
  rendered list and a part of the document \<open>draw_svg\<close> returns, and its fill is
  chosen in priority order: the reserved colour \<^verbatim>\<open>#ffcccb\<close> when the identifier (row
  letter, then the number) is in the reservation list, also when \<open>k > 20\<close>; otherwise
  \<^verbatim>\<open>yellow\<close> when \<open>k > 20\<close>; otherwise \<^verbatim>\<open>none\<close>. The fill read back from the glyph is
  that colour.
\<close>

theorem seat_fill_priority:
  assumes "j < length seats" and "i < length (seats ! j)" and "0 < seats ! j ! i"
  shows "\<exists>glyph pre post.
       glyph = draw_seat (PFloat (40 * int i + 60)) (PFloat (40 * int j + 140)) (seats ! j ! i)
         (if rows ! j # str_int (seats ! j ! i) \<in> set reserved then ''#ffcccb''
          else if 20 < seats ! j ! i then ''yellow'' else ''none'')
     \<and> fill_of glyph = Some
         (if rows ! j # str_int (seats ! j ! i) \<in> set reserved then ''#ffcccb''
          else if 20 < seats ! j ! i then ''yellow'' else ''none'')
     \<and> cell_items reserved j i (seats ! j ! i) = [glyph]
     \<and> glyph \<in> set (svg_items reserved)
     \<and> draw_svg reserved = Inr (join [CHR 0x0A] (svg_items reserved))
     \<and> draw_svg reserved = Inr (pre @ glyph @ post)"
proof -
  let ?k = "seats ! j ! i"
  let ?c = "seat_color reserved j ?k"
  let ?glyph = "draw_seat (PFloat (40 * int i + 60)) (PFloat (40 * int j + 140)) ?k ?c"
  have c: "?c = (if rows ! j # str_int ?k \<in> set reserved then ''#ffcccb''
                 else if 20 < ?k then ''yellow'' else ''none'')"
    by (simp add: seat_color_cases seat_id_def)
  have cell: "cell_items reserved j i ?k = [?glyph]" using assms(3) by (rule cell_items_seat)
  have fill: "fill_of ?glyph = Some ?c" by (rule fill_of_draw_seat) (rule seat_color_no_quote)
  have mem: "?glyph \<in> set (svg_items reserved)"
    using cell_in_svg [OF assms(1,2), of reserved] cell by simp
  then obtain pre post where "join [CHR 0x0A] (svg_items reserved) = pre @ ?glyph @ post"
    using join_contains by blast
  then have doc: "draw_svg reserved = Inr (pre @ ?glyph @ post)" by (simp add: draw_svg_Inr)
  from cell fill mem doc draw_svg_Inr [of reserved] show ?thesis unfolding c by blast
qed

lemma str_int_24: "str_int 24 = ''24''"
  by code_simp

theorem seat_fill_priority_witness:
  "0 < length seats \<and> 29 < length (seats ! 0) \<and> 0 < seats ! 0 ! 29
   \<and> (\<exists>glyph pre post.
         glyph = draw_seat (PFloat 1220) (PFloat 140) 24 ''#ffcccb''
       \<and> fill_of glyph = Some ''#ffcccb''
       \<and> cell_items [''A24''] 0 29 24 = [glyph]
       \<and> glyph \<in> set (svg_items [''A24''])
       \<and> draw_svg [''A24''] = Inr (join [CHR 0x0A] (svg_items [''A24'']))
       \<and> draw_svg [''A24''] = Inr (pre @ glyph @ post))"
proof -
  have h: "0 < length seats" "29 < length (seats ! 0)" "0 < seats ! 0 ! 29"
    by (simp_all add: seats_eq)
  have k: "seats ! 0 ! 29 = 24" by (simp add: seats_eq)
  have c: "(if rows ! 0 # str_int 24 \<in> set [''A24''] then ''#ffcccb''
            else if (20::int) < 24 then ''yellow'' else ''none'') = ''#ffcccb''"
    by (simp add: rows_def str_int_24)
  have xy: "40 * int 29 + 60 = 1220" "40 * int 0 + 140 = 140" by simp_all
  note t = seat_fill_priority [OF h, of "[''A24'']", unfolded k c xy]
  from h t show ?thesis by (intro conjI)
qed

lemma seat_color_cong_set: "set r1 = set r2 \<Longrightarrow> seat_color r1 j k = seat_color r2 j k"
  by (simp add: seat_color_def)

lemma cell_items_cong:
  "(0 < k \<Longrightarrow> seat_color r1 j k = seat_color r2 j k) \<Longrightarrow> cell_items r1 j i k = cell_items r2 j i k"
  by (simp add: cell_items_def Let_def)

lemma row_items_cong:
  assumes "\<And>k. k \<in> set row \<Longrightarrow> 0 < k \<Longrightarrow> seat_color r1 j k = seat_color r2 j k"
  shows "row_items r1 j row = row_items r2 j row"
proof -
  have "map (\<lambda>(i, k). cell_items r1 j i k) (enumerate 0 row)
      = map (\<lambda>(i, k). cell_items r2 j i k) (enumerate 0 row)"
  proof (rule map_cong [OF refl])
    fix p assume p: "p \<in> set (enumerate 0 row)"
    then have "fst p < length row" and "row ! fst p = snd p"
      by (simp_all add: in_set_enumerate_eq)
    then have "snd p \<in> set row" by (metis nth_mem)
    then have "cell_items r1 j (fst p) (snd p) = cell_items r2 j (fst p) (snd p)"
      by (intro cell_items_cong assms)
    then show "(case p of (i, k) \<Rightarrow> cell_items r1 j i k) = (case p of (i, k) \<Rightarrow> cell_items r2 j i k)"
      by (simp add: case_prod_beta)
  qed
  then show ?thesis by (simp only: row_items_def)
qed

lemma grid_items_cong:
  assumes "\<And>j row k. (j, row) \<in> set (enumerate 0 grid) \<Longrightarrow> k \<in> set row \<Longrightarrow> 0 < k
             \<Longrightarrow> seat_color r1 j k = seat_color r2 j k"
  shows "grid_items r1 grid = grid_items r2 grid"
proof -
  have "map (\<lambda>(j, row). row_items r1 j row) (enumerate 0 grid)
      = map (\<lambda>(j, row). row_items r2 j row) (enumerate 0 grid)"
  proof (rule map_cong [OF refl])
    fix p assume p: "p \<in> set (enumerate 0 grid)"
    obtain j row where jr: "p = (j, row)" by (cases p)
    have "row_items r1 j row = row_items r2 j row"
    proof (rule row_items_cong)
      fix k assume "k \<in> set row" "0 < k"
      with p jr show "seat_color r1 j k = seat_color r2 j k" by (intro assms) simp_all
    qed
    then have "row_items r1 (fst p) (snd p) = row_items r2 (fst p) (snd p)" by (simp add: jr)
    then show "(case p of (j, row) \<Rightarrow> row_items r1 j row) = (case p of (j, row) \<Rightarrow> row_items r2 j row)"
      by (simp add: case_prod_beta)
  qed
  then show ?thesis by (simp only: grid_items_def)
qed

lemma seat_id_in_seat_ids:
  "(j, row) \<in> set (enumerate 0 seats) \<Longrightarrow> k \<in> set row \<Longrightarrow> 0 < k \<Longrightarrow> seat_id j k \<in> set seat_ids"
  by (force simp: seat_ids_def)

text \<open>
  C2. A reservation list none of whose identifiers is the identifier of a seat of the
  layout gives the same document, byte for byte, as the empty list.
\<close>

theorem unknown_ids_ignored:
  assumes "set reserved \<inter> set seat_ids = {}"
  shows "draw_svg reserved = draw_svg []"
proof -
  have "grid_items reserved seats = grid_items [] seats"
  proof (rule grid_items_cong)
    fix j row k
    assume "(j, row) \<in> set (enumerate 0 seats)" "k \<in> set row" "0 < k"
    then have "seat_id j k \<in> set seat_ids" by (rule seat_id_in_seat_ids)
    with assms have "seat_id j k \<notin> set reserved" by blast
    then show "seat_color reserved j k = seat_color [] j k" by (simp add: seat_color_def)
  qed
  then show ?thesis by (simp add: draw_svg_def svg_items_def)
qed

lemma Z99_unknown: "''Z99'' \<notin> set seat_ids"
  by code_simp

theorem unknown_ids_ignored_witness:
  "set [''Z99''] \<inter> set seat_ids = {} \<and> draw_svg [''Z99''] = draw_svg []"
  using unknown_ids_ignored [of "[''Z99'']"] Z99_unknown by simp

text \<open>
  C8. The document depends on the reservation list only through the set of its
  elements: two lists with the same elements, in any order and with any repetitions, give
  the same document.
\<close>

theorem reserved_only_as_set:
  assumes "set r1 = set r2"
  shows "draw_svg r1 = draw_svg r2"
proof -
  have "grid_items r1 seats = grid_items r2 seats"
    by (rule grid_items_cong) (rule seat_color_cong_set [OF assms])
  then show ?thesis by (simp add: draw_svg_def svg_items_def)
qed

theorem reserved_only_as_set_witness:
  "set [''A1'', ''B24'', ''A1''] = set [''B24'', ''A1'']
   \<and> draw_svg [''A1'', ''B24'', ''A1''] = draw_svg [''B24'', ''A1'']"
  using reserved_only_as_set [of "[''A1'', ''B24'', ''A1'']" "[''B24'', ''A1'']"] by auto

lemma fill_of_head: "map fill_of svg_head = [None, Some ''#8bc34a'', Some ''white'', Some ''#8bc34a'', Some ''white'']"
  by (simp add: svg_head_def draw_rect_def draw_text_def make_args_def dict_or_def)

lemma yellow_head: "filter (\<lambda>item. fill_of item = Some ''yellow'') svg_head = []"
proof -
  have "\<forall>item \<in> set svg_head. fill_of item \<in> set (map fill_of svg_head)" by simp
  then have "\<forall>item \<in> set svg_head. fill_of item \<noteq> Some ''yellow''"
    unfolding fill_of_head by auto
  then show ?thesis by (simp add: filter_empty_conv)
qed

lemma premium_cell:
  "filter (\<lambda>item. fill_of item = Some ''yellow'') (cell_items [] j i k)
     = (if 20 < k then [draw_seat (PFloat (40 * int i + 60)) (PFloat (40 * int j + 140)) k ''yellow'']
        else [])"
proof -
  consider "k = 0" | "k < 0" | "0 < k" by linarith
  then show ?thesis
  proof cases
    case 1
    then show ?thesis by (simp add: cell_items_def)
  next
    case 2
    then show ?thesis by (simp add: cell_items_def cell_xy fill_of_label)
  next
    case 3
    then show ?thesis
      by (simp add: cell_items_seat fill_of_draw_seat seat_color_no_quote) (simp add: seat_color_cases)
  qed
qed

lemma premium_row_from:
  "filter (\<lambda>item. fill_of item = Some ''yellow'')
       (concat (map (\<lambda>(i, k). cell_items [] j i k) (enumerate n row)))
     = map (\<lambda>(i, k). draw_seat (PFloat (40 * int i + 60)) (PFloat (40 * int j + 140)) k ''yellow'')
         (filter (\<lambda>(i, k). 20 < k) (enumerate n row))"
  by (induction row arbitrary: n) (simp_all add: premium_cell)

lemma premium_row:
  "filter (\<lambda>item. fill_of item = Some ''yellow'') (row_items [] j row)
     = map (\<lambda>(i, k). draw_seat (PFloat (40 * int i + 60)) (PFloat (40 * int j + 140)) k ''yellow'')
         (filter (\<lambda>(i, k). 20 < k) (enumerate 0 row))"
  by (simp only: row_items_def premium_row_from)

lemma premium_grid_from:
  "filter (\<lambda>item. fill_of item = Some ''yellow'')
       (concat (map (\<lambda>(j, row). row_items [] j row) (enumerate n grid)))
     = concat (map (\<lambda>(j, row).
         map (\<lambda>(i, k). draw_seat (PFloat (40 * int i + 60)) (PFloat (40 * int j + 140)) k ''yellow'')
           (filter (\<lambda>(i, k). 20 < k) (enumerate 0 row))) (enumerate n grid))"
  by (induction grid arbitrary: n) (simp_all add: premium_row)

lemma premium_grid:
  "filter (\<lambda>item. fill_of item = Some ''yellow'') (grid_items [] grid)
     = concat (map (\<lambda>(j, row).
         map (\<lambda>(i, k). draw_seat (PFloat (40 * int i + 60)) (PFloat (40 * int j + 140)) k ''yellow'')
           (filter (\<lambda>(i, k). 20 < k) (enumerate 0 row))) (enumerate 0 grid))"
  by (simp only: grid_items_def premium_grid_from)

lemma premium_glyphs:
  "filter (\<lambda>item. fill_of item = Some ''yellow'') (svg_items [])
     = [draw_seat (PFloat 60) (PFloat 140) 23 ''yellow'',
        draw_seat (PFloat 100) (PFloat 140) 21 ''yellow'',
        draw_seat (PFloat 1180) (PFloat 140) 22 ''yellow'',
        draw_seat (PFloat 1220) (PFloat 140) 24 ''yellow'',
        draw_seat (PFloat 60) (PFloat 180) 23 ''yellow'',
        draw_seat (PFloat 100) (PFloat 180) 21 ''yellow'',
        draw_seat (PFloat 1180) (PFloat 180) 22 ''yellow'',
        draw_seat (PFloat 1220) (PFloat 180) 24 ''yellow'']"
  by (simp add: svg_items_def yellow_head premium_grid) (simp add: seats_eq)

lemma occ_skip: "CHR ''f'' \<notin> set p \<Longrightarrow> occurrences yellow_fill (p @ s) = occurrences yellow_fill s"
  by (induction p) auto

lemma occ_skip_int [simp]: "occurrences yellow_fill (str_int k @ s) = occurrences yellow_fill s"
  by (simp add: occ_skip)

lemma occ_seat:
  "c \<in> {''none'', ''yellow'', ''#ffcccb''} \<Longrightarrow>
   occurrences yellow_fill (draw_seat (PFloat a) (PFloat b) k c @ rest)
     = (if c = ''yellow'' then 1 else 0) + occurrences yellow_fill rest"
  by (auto simp: draw_seat_def draw_rect_def draw_text_def make_args_def dict_or_def)

lemma occ_label:
  "occurrences yellow_fill (draw_text (PFloat a) (PFloat b) (PInt 20) [ch] ''black'' [] @ rest)
     = occurrences yellow_fill rest"
  by (simp add: draw_text_def make_args_def dict_or_def)


lemma occ_join:
  assumes "\<And>x rest. x \<in> set xs \<Longrightarrow>
             occurrences yellow_fill (x @ rest) = f x + occurrences yellow_fill rest"
  shows "occurrences yellow_fill (join [CHR 0x0A] xs @ rest)
           = sum_list (map f xs) + occurrences yellow_fill rest"
  using assms
proof (induction xs rule: induct_list012)
  case 1
  then show ?case by simp
next
  case (2 x)
  then show ?case by simp
next
  case (3 x y zs)
  have "occurrences yellow_fill (join [CHR 0x0A] (x # y # zs) @ rest)
      = occurrences yellow_fill (x @ (CHR 0x0A # join [CHR 0x0A] (y # zs) @ rest))"
    by simp
  also have "\<dots> = f x + occurrences yellow_fill (CHR 0x0A # join [CHR 0x0A] (y # zs) @ rest)"
    by (rule "3.prems") simp
  also have "occurrences yellow_fill (CHR 0x0A # join [CHR 0x0A] (y # zs) @ rest)
      = occurrences yellow_fill (join [CHR 0x0A] (y # zs) @ rest)"
    by simp
  also have "\<dots> = sum_list (map f (y # zs)) + occurrences yellow_fill rest"
    by (rule "3.IH"(2)) (simp add: "3.prems")
  finally show ?case by simp
qed

lemma sum_indicator: "sum_list (map (\<lambda>x. if P x then 1 else 0) xs) = length (filter P xs)"
  by (induction xs) simp_all

lemma occ_head:
  "x \<in> set svg_head \<Longrightarrow> occurrences yellow_fill (x @ rest) = occurrences yellow_fill rest"
  by (auto simp: svg_head_def draw_rect_def draw_text_def make_args_def dict_or_def)

lemma head_not_yellow: "x \<in> set svg_head \<Longrightarrow> fill_of x \<noteq> Some ''yellow''"
  using yellow_head by (simp add: filter_empty_conv)

lemma occ_cell:
  assumes "x \<in> set (cell_items [] j i k)"
  shows "occurrences yellow_fill (x @ rest)
           = (if fill_of x = Some ''yellow'' then 1 else 0) + occurrences yellow_fill rest"
proof -
  consider "k = 0" | "k < 0" | "0 < k" by linarith
  then show ?thesis
  proof cases
    case 1
    with assms show ?thesis by (simp add: cell_items_def)
  next
    case 2
    with assms show ?thesis by (simp add: cell_items_def cell_xy fill_of_label occ_label)
  next
    case 3
    let ?c = "seat_color [] j k"
    have x: "x = draw_seat (PFloat (40 * int i + 60)) (PFloat (40 * int j + 140)) k ?c"
      using assms 3 by (simp add: cell_items_seat)
    have c: "?c \<in> {''none'', ''yellow'', ''#ffcccb''}" by (simp add: seat_color_cases)
    have "fill_of x = Some ?c" unfolding x by (rule fill_of_draw_seat) (rule seat_color_no_quote)
    then show ?thesis unfolding x using occ_seat [OF c] by simp
  qed
qed

lemma in_grid_items:
  "x \<in> set (grid_items reserved grid) \<Longrightarrow> \<exists>j i k. x \<in> set (cell_items reserved j i k)"
  by (auto simp: grid_items_def row_items_def)

lemma occ_item:
  assumes "x \<in> set (svg_items [])"
  shows "occurrences yellow_fill (x @ rest)
           = (if fill_of x = Some ''yellow'' then 1 else 0) + occurrences yellow_fill rest"
proof -
  from assms consider "x \<in> set svg_head" | "x \<in> set (grid_items [] seats)" | "x = ''</svg>''"
    by (auto simp: svg_items_def)
  then show ?thesis
  proof cases
    case 1
    then show ?thesis by (simp add: occ_head head_not_yellow)
  next
    case 2
    then obtain j i k where "x \<in> set (cell_items [] j i k)" using in_grid_items by blast
    then show ?thesis by (rule occ_cell)
  next
    case 3
    then show ?thesis by simp
  qed
qed

lemma occ_document:
  "occurrences yellow_fill (join [CHR 0x0A] (svg_items []))
     = length (filter (\<lambda>item. fill_of item = Some ''yellow'') (svg_items []))"
proof -
  have "occurrences yellow_fill (join [CHR 0x0A] (svg_items []) @ [])
      = sum_list (map (\<lambda>x. if fill_of x = Some ''yellow'' then 1 else 0) (svg_items []))
        + occurrences yellow_fill []"
    by (rule occ_join) (rule occ_item)
  then show ?thesis by (simp add: sum_indicator)
qed

text \<open>
  C10. The cells with a seat number above 20 are the seats 23, 21, 22, 24 of row A and
  of row B, in the order of the grid, and no row after the first two has one. Hence with
  the empty reservation list the items of the rendered list with the fill \<^verbatim>\<open>yellow\<close>
  are the 8 glyphs of those seats, and the document \<open>draw_svg\<close> returns, which is
  that list joined by newlines, has \<^verbatim>\<open>fill="yellow"\<close> at exactly 8 places.
\<close>

theorem premium_seats_only_in_A_B:
  "concat (map (\<lambda>(j, row). map (\<lambda>k. (rows ! j, k)) (filter (\<lambda>k. 20 < k) row)) (enumerate 0 seats))
     = [(CHR ''A'', 23), (CHR ''A'', 21), (CHR ''A'', 22), (CHR ''A'', 24),
        (CHR ''B'', 23), (CHR ''B'', 21), (CHR ''B'', 22), (CHR ''B'', 24)]
   \<and> filter (\<lambda>k. 20 < k) (concat (drop 2 seats)) = []
   \<and> draw_svg [] = Inr (join [CHR 0x0A] (svg_items []))
   \<and> filter (\<lambda>item. fill_of item = Some ''yellow'') (svg_items [])
     = [draw_seat (PFloat 60) (PFloat 140) 23 ''yellow'',
        draw_seat (PFloat 100) (PFloat 140) 21 ''yellow'',
        draw_seat (PFloat 1180) (PFloat 140) 22 ''yellow'',
        draw_seat (PFloat 1220) (PFloat 140) 24 ''yellow'',
        draw_seat (PFloat 60) (PFloat 180) 23 ''yellow'',
        draw_seat (PFloat 100) (PFloat 180) 21 ''yellow'',
        draw_seat (PFloat 1180) (PFloat 180) 22 ''yellow'',
        draw_seat (PFloat 1220) (PFloat 180) 24 ''yellow'']
   \<and> length (filter (\<lambda>item. fill_of item = Some ''yellow'') (svg_items [])) = 8
   \<and> (\<exists>doc. draw_svg [] = Inr doc \<and> occurrences yellow_fill doc = 8)"
proof -
  have a: "concat (map (\<lambda>(j, row). map (\<lambda>k. (rows ! j, k)) (filter (\<lambda>k. 20 < k) row)) (enumerate 0 seats))
     = [(CHR ''A'', 23), (CHR ''A'', 21), (CHR ''A'', 22), (CHR ''A'', 24),
        (CHR ''B'', 23), (CHR ''B'', 21), (CHR ''B'', 22), (CHR ''B'', 24)]"
    by (simp add: seats_eq rows_def)
  have b: "filter (\<lambda>k. 20 < k) (concat (drop 2 seats)) = []"
    by (simp add: seats_eq)
  note c = draw_svg_Inr [of "[]"]
  note d = premium_glyphs
  have e: "length (filter (\<lambda>item. fill_of item = Some ''yellow'') (svg_items [])) = 8"
    by (simp only: premium_glyphs) simp
  have "occurrences yellow_fill (join [CHR 0x0A] (svg_items [])) = 8"
    by (simp only: occ_document e)
  with c have f: "\<exists>doc. draw_svg [] = Inr doc \<and> occurrences yellow_fill doc = 8"
    by blast
  from a b c d e f show ?thesis by (intro conjI)
qed












end
